theory Spec2Isabelle
  imports Main "HOL-Library.Word"
begin

section \<open>JavaScript values and strings\<close>

text \<open>
  A JavaScript string is a finite sequence of 16-bit code units; \<open>length\<close>, indexing,
  \<open>slice\<close>, \<open>split\<close> and the regular expressions used in the helpers (none has the
  \<open>u\<close> flag) all work on code units. A string is therefore a list of 16-bit words.
  \<open>ascii\<close> turns an Isabelle string literal into such a list.
\<close>

type_synonym code_unit = "16 word"
type_synonym jsstring = "code_unit list"

definition ascii :: "string \<Rightarrow> jsstring" where
  "ascii s = map (\<lambda>c. of_nat (of_char c)) s"

text \<open>
  The values the helpers can be handed. A number is an integer from \<open>-2^53\<close> to
  \<open>2^53 - 1\<close>: these are Numbers that print as their exact decimal digits. It is held as
  a signed 54-bit word (read with \<open>sint\<close>), so that no other integer is a value; no
  arithmetic is done on it. An array is dense and has no property besides its elements;
  an object is a plain object, given by its own string-keyed data properties. Other
  numbers, symbols, functions and objects with accessors are outside the model.
\<close>

datatype jsval =
    JUndefined
  | JNull
  | JBoolean bool
  | JInteger "54 word"
  | JString jsstring
  | JArray "jsval list"
  | JObject "(jsstring \<times> jsval) list"

datatype js_error =
    TypeError
  | SyntaxError
  | QuotaExceededError
  | Error jsstring

text \<open>The code units that occur as literals in the sources.\<close>

definition MASK :: code_unit where "MASK = 0x2A"       \<comment> \<open>\<open>*\<close>\<close>
definition PLUS :: code_unit where "PLUS = 0x2B"       \<comment> \<open>\<open>+\<close>\<close>
definition COMMA :: code_unit where "COMMA = 0x2C"     \<comment> \<open>\<open>,\<close>\<close>
definition DASH :: code_unit where "DASH = 0x2D"       \<comment> \<open>\<open>-\<close>\<close>
definition DOT :: code_unit where "DOT = 0x2E"         \<comment> \<open>\<open>.\<close>\<close>
definition AT :: code_unit where "AT = 0x40"           \<comment> \<open>\<open>@\<close>\<close>
definition UNDERSCORE :: code_unit where "UNDERSCORE = 0x5F"

text \<open>The character classes \<open>\d\<close>, \<open>[A-Z]\<close>, \<open>[a-z]\<close> and \<open>\w\<close> of a regular
  expression without the \<open>i\<close> and \<open>u\<close> flags.\<close>

definition isDigit :: "code_unit \<Rightarrow> bool" where
  "isDigit c \<longleftrightarrow> 0x30 \<le> c \<and> c \<le> 0x39"

definition isUpper :: "code_unit \<Rightarrow> bool" where
  "isUpper c \<longleftrightarrow> 0x41 \<le> c \<and> c \<le> 0x5A"

definition isLower :: "code_unit \<Rightarrow> bool" where
  "isLower c \<longleftrightarrow> 0x61 \<le> c \<and> c \<le> 0x7A"

definition isWord :: "code_unit \<Rightarrow> bool" where
  "isWord c \<longleftrightarrow> isUpper c \<or> isLower c \<or> isDigit c \<or> c = UNDERSCORE"

text \<open>
  \<open>\s\<close> and \<open>trim\<close> use the same set: ECMAScript's WhiteSpace and LineTerminator
  code points, all of them single code units.
\<close>

definition isSpace :: "code_unit \<Rightarrow> bool" where
  "isSpace c \<longleftrightarrow>
     c \<in> {0x09, 0x0A, 0x0B, 0x0C, 0x0D, 0x20, 0xA0, 0x1680, 0x2028, 0x2029,
          0x202F, 0x205F, 0x3000, 0xFEFF}
     \<or> (0x2000 \<le> c \<and> c \<le> 0x200A)"

subsection \<open>String primitives\<close>

text \<open>\<open>str.slice(start)\<close>: a negative start counts from the end, both clamped.\<close>

definition js_slice :: "jsstring \<Rightarrow> int \<Rightarrow> jsstring" where
  "js_slice str start =
     (let len = int (length str);
          from = (if start < 0 then max (len + start) 0 else min start len)
      in drop (nat from) str)"

text \<open>\<open>str.split(sep)\<close> for a separator of one code unit: never an empty array.\<close>

fun js_split :: "code_unit \<Rightarrow> jsstring \<Rightarrow> jsstring list" where
  "js_split sep [] = [ [] ]"
| "js_split sep (c # cs) =
     (if c = sep then [] # js_split sep cs
      else (case js_split sep cs of
              [] \<Rightarrow> [ [c] ]
            | p # ps \<Rightarrow> (c # p) # ps))"

text \<open>\<open>parts.join(sep)\<close> on an array of strings.\<close>

fun js_join :: "jsstring \<Rightarrow> jsstring list \<Rightarrow> jsstring" where
  "js_join sep [] = []"
| "js_join sep [p] = p"
| "js_join sep (p # q # ps) = p @ sep @ js_join sep (q # ps)"

text \<open>Decimal digits of a natural number, most significant first.\<close>

function digits :: "nat \<Rightarrow> jsstring" where
  "digits n = (if n < 10 then [0x30 + of_nat n] else digits (n div 10) @ [0x30 + of_nat (n mod 10)])"
  by pat_completeness auto
termination
  by (relation "measure id") auto

declare digits.simps [simp del]

text \<open>\<open>Number::toString\<close> on the numbers above: the sign and the decimal digits.\<close>

definition Number_toString :: "54 word \<Rightarrow> jsstring" where
  "Number_toString n =
     (if sint n < 0 then DASH # digits (nat (- sint n)) else digits (nat (sint n)))"

text \<open>The results of a list of conversions, or the first error among them.\<close>

fun sequence :: "(js_error + 'a) list \<Rightarrow> js_error + 'a list" where
  "sequence [] = Inr []"
| "sequence (r # rs) =
     (case r of
        Inl e \<Rightarrow> Inl e
      | Inr x \<Rightarrow> (case sequence rs of Inl e \<Rightarrow> Inl e | Inr xs \<Rightarrow> Inr (x # xs)))"

text \<open>
  \<open>String(v)\<close> and template-literal interpolation (\<open>ToString\<close>). An array prints its
  elements from left to right, joined by commas, with \<open>null\<close> and \<open>undefined\<close> elements
  printed as nothing. A plain object prints as \<open>[object Object]\<close>, through the
  \<open>toString\<close> it inherits; when it has an own property \<open>toString\<close>, which is data and
  cannot be called, and \<open>valueOf\<close> gives no primitive either, the conversion raises a
  TypeError.
\<close>

fun toString :: "jsval \<Rightarrow> js_error + jsstring" where
  "toString JUndefined = Inr (ascii ''undefined'')"
| "toString JNull = Inr (ascii ''null'')"
| "toString (JBoolean b) = Inr (if b then ascii ''true'' else ascii ''false'')"
| "toString (JInteger n) = Inr (Number_toString n)"
| "toString (JString s) = Inr s"
| "toString (JArray vs) =
     (case sequence (map (\<lambda>v. if v = JUndefined \<or> v = JNull then Inr [] else toString v) vs) of
        Inl e \<Rightarrow> Inl e
      | Inr parts \<Rightarrow> Inr (js_join [COMMA] parts))"
| "toString (JObject fs) =
     (if ascii ''toString'' \<in> set (map fst fs) then Inl TypeError
      else Inr (ascii ''[object Object]''))"

text \<open>Truthiness (\<open>ToBoolean\<close>), as used by \<open>if (v)\<close> and \<open>!v\<close>.\<close>

fun truthy :: "jsval \<Rightarrow> bool" where
  "truthy JUndefined = False"
| "truthy JNull = False"
| "truthy (JBoolean b) = b"
| "truthy (JInteger n) = (n \<noteq> 0)"
| "truthy (JString s) = (s \<noteq> [])"
| "truthy (JArray vs) = True"
| "truthy (JObject fs) = True"

section \<open>Censoring helpers (\<open>src/helpers/censorUtils.js\<close>)\<close>

text \<open>
  \<^verbatim>\<open>
  export function censorWord(str) {
      if (typeof str !== 'string' || str.length === 0) return '';
      if (str.length === 1) return '*';
      if (str.length === 2) return str[0] + '*';
      return str[0] + '*'.repeat(str.length - 2) + str.slice(-1);
  }
  \<close>
\<close>

definition censorWord :: "jsval \<Rightarrow> jsstring" where
  "censorWord v =
     (case v of
        JString str \<Rightarrow>
          if length str = 0 then []
          else if length str = 1 then [MASK]
          else if length str = 2 then [str ! 0] @ [MASK]
          else [str ! 0] @ replicate (length str - 2) MASK @ js_slice str (- 1)
      | _ \<Rightarrow> [])"

text \<open>
  The match of \<open>/^\+\d+/\<close>: a \<open>+\<close> at the start followed by at least one digit; the
  greedy \<open>\d+\<close> takes every digit that follows.
\<close>

definition countryCodeMatch :: "jsstring \<Rightarrow> jsstring option" where
  "countryCodeMatch number =
     (case number of
        [] \<Rightarrow> None
      | c # cs \<Rightarrow>
          if c = PLUS \<and> takeWhile isDigit cs \<noteq> [] then Some (c # takeWhile isDigit cs)
          else None)"

text \<open>
  \<^verbatim>\<open>
  export function censorPhone(number) {
      if (typeof number !== 'string') number = String(number);
      const countryCodeMatch = number.match(/^\+\d+/);
      let countryCode = '';
      if (countryCodeMatch) {
          countryCode = countryCodeMatch[0];
          number = number.slice(countryCode.length);
      }
      return countryCode + censorWord(number);
  }
  \<close>
  \<open>String(number)\<close> can raise, so the result is the censored string or that error.
\<close>

definition censorPhone :: "jsval \<Rightarrow> js_error + jsstring" where
  "censorPhone v =
     (case (case v of JString s \<Rightarrow> Inr s | _ \<Rightarrow> toString v) of
        Inl error \<Rightarrow> Inl error
      | Inr number \<Rightarrow>
          (case countryCodeMatch number of
             Some countryCode \<Rightarrow>
               Inr (countryCode @ censorWord (JString (js_slice number (int (length countryCode)))))
           | None \<Rightarrow> Inr ([] @ censorWord (JString number))))"

text \<open>
  \<^verbatim>\<open>
  export function censorEmail(email) {
      if (typeof email !== 'string' || !email.includes('@')) return email;
      const [local, domain] = email.split('@');
      const domainParts = domain.split('.');
      const domainName = domainParts[0];
      const tld = domainParts.slice(1).join('.') || '';
      return (
          censorWord(local) + '@' + censorWord(domainName) + (tld ? '.' + tld : '')
      );
  }
  \<close>
  A non-string and a string without \<open>@\<close> come back as they are, so the result is a
  value. The destructuring leaves \<open>domain\<close> undefined when the split has one part, and
  \<open>domain.split\<close> would then raise a TypeError; that branch is kept.
\<close>

definition censorEmail :: "jsval \<Rightarrow> js_error + jsval" where
  "censorEmail email =
     (case email of
        JString s \<Rightarrow>
          if AT \<notin> set s then Inr email
          else (case js_split AT s of
                  local # domain # _ \<Rightarrow>
                    (let domainParts = js_split DOT domain;
                         domainName = (case domainParts of [] \<Rightarrow> JUndefined | d # _ \<Rightarrow> JString d);
                         tld = js_join [DOT] (drop 1 domainParts)
                     in Inr (JString (censorWord (JString local) @ [AT] @ censorWord domainName
                                      @ (if tld \<noteq> [] then [DOT] @ tld else []))))
                | _ \<Rightarrow> Inl TypeError)
      | _ \<Rightarrow> Inr email)"

section \<open>String utilities (\<open>src/utils/stringUtils.js\<close>, in \<open>src/unnamed/part_001\<close>)\<close>

text \<open>\<open>str.trim()\<close>: strips white space and line terminators from both ends.\<close>

definition trim :: "jsstring \<Rightarrow> jsstring" where
  "trim str = rev (dropWhile isSpace (rev (dropWhile isSpace str)))"

text \<open>
  \<open>.replace(/\s+/g, "-")\<close>: scanning from the left, each maximal run of white space
  becomes one dash.
\<close>

function replace_spaces :: "jsstring \<Rightarrow> jsstring" where
  "replace_spaces [] = []"
| "replace_spaces (c # cs) =
     (if isSpace c then DASH # replace_spaces (dropWhile isSpace cs)
      else c # replace_spaces cs)"
  by pat_completeness auto
termination
  by (relation "measure length") (auto simp: less_Suc_eq_le length_dropWhile_le)

text \<open>\<open>.replace(/[^\w-]+/g, "")\<close>: every code unit outside \<open>[A-Za-z0-9_-]\<close> is removed.\<close>

definition remove_non_word :: "jsstring \<Rightarrow> jsstring" where
  "remove_non_word str = filter (\<lambda>c. isWord c \<or> c = DASH) str"

text \<open>
  \<open>.replace(/--+/g, "-")\<close>: scanning from the left, a dash followed by a dash starts a
  match that takes every dash after it, and the match becomes one dash.
\<close>

function replace_dashes :: "jsstring \<Rightarrow> jsstring" where
  "replace_dashes [] = []"
| "replace_dashes (c # cs) =
     (if c = DASH \<and> take 1 cs = [DASH]
      then DASH # replace_dashes (dropWhile (\<lambda>d. d = DASH) cs)
      else c # replace_dashes cs)"
  by pat_completeness auto
termination
  by (relation "measure length") (auto simp: less_Suc_eq_le length_dropWhile_le)

text \<open>
  \<^verbatim>\<open>
  export function slugify(str) {
      return str
          .toLowerCase()
          .trim()
          .replace(/\s+/g, "-")
          .replace(/[^\w-]+/g, "")
          .replace(/--+/g, "-");
  }
  \<close>
  \<open>String.prototype.toLowerCase\<close> maps by the platform's Unicode case tables, which are
  not part of the repository: it is the parameter \<open>toLowerCase\<close>. The parameter \<open>str\<close>
  is a string, as documented (on another value the method call raises).
\<close>

definition slugify :: "(jsstring \<Rightarrow> jsstring) \<Rightarrow> jsstring \<Rightarrow> jsstring" where
  "slugify toLowerCase str =
     replace_dashes (remove_non_word (replace_spaces (trim (toLowerCase str))))"

text \<open>
  The case mapping on strings whose only cased code units are ASCII letters: an instance
  of the parameter.
\<close>

definition toLowerCase_ascii :: "jsstring \<Rightarrow> jsstring" where
  "toLowerCase_ascii str = map (\<lambda>c. if isUpper c then c + 0x20 else c) str"

text \<open>The code units a slug is made of: \<open>a-z\<close>, \<open>0-9\<close>, \<open>_\<close> and \<open>-\<close>.\<close>

definition slugUnit :: "code_unit \<Rightarrow> bool" where
  "slugUnit c \<longleftrightarrow> isLower c \<or> isDigit c \<or> c = UNDERSCORE \<or> c = DASH"

text \<open>
  \<^verbatim>\<open>
  export function camelToSnake(str) {
      return str.replace(/[A-Z]/g, (match) => `_${match.toLowerCase()}`);
  }
  \<close>
  The match is one ASCII capital, whose lower case is 32 code units up.
\<close>

definition camelToSnake :: "jsstring \<Rightarrow> jsstring" where
  "camelToSnake str = concat (map (\<lambda>c. if isUpper c then [UNDERSCORE, c + 0x20] else [c]) str)"

text \<open>
  \<^verbatim>\<open>
  export function snakeToCamel(str) {
      return str.replace(/_([a-z])/g, (match, p1) => p1.toUpperCase());
  }
  \<close>
  Scanning from the left: an underscore followed by an ASCII small letter is replaced by
  the capital, and the scan goes on after the letter.
\<close>

fun snakeToCamel :: "jsstring \<Rightarrow> jsstring" where
  "snakeToCamel (u # c # cs) =
     (if u = UNDERSCORE \<and> isLower c then (c - 0x20) # snakeToCamel cs
      else u # snakeToCamel (c # cs))"
| "snakeToCamel cs = cs"

section \<open>Platform\<close>

text \<open>
  \<open>JSON.parse\<close> and \<open>JSON.stringify\<close> are the platform's, and their values include
  numbers that are not integers: each is a parameter (\<open>JSON_parse\<close>, \<open>JSON_stringify\<close>)
  of the functions that call it, and returns its result or the error it raises. Where a
  closed statement needs an instance of \<open>JSON.parse\<close>, this one is used: \<open>JSON.parse\<close> on
  the three literal names. On every other text it raises, as \<open>JSON.parse\<close> does on a text
  that is not JSON; below it is applied to such texts only (the empty text, \<open>{\<close> and
  \<open>eyJhbGciOi.abc\<close>) and to the three names.
\<close>

definition JSON_parse_names :: "jsstring \<Rightarrow> js_error + jsval" where
  "JSON_parse_names text =
     (if text = ascii ''null'' then Inr JNull
      else if text = ascii ''true'' then Inr (JBoolean True)
      else if text = ascii ''false'' then Inr (JBoolean False)
      else Inl SyntaxError)"

text \<open>
  A Web Storage object: its entries in key order, and the limit on the code units of
  keys and values together, beyond which \<open>setItem\<close> raises QuotaExceededError.
\<close>

record storage_area =
  items :: "(jsstring \<times> jsstring) list"
  quota :: nat

definition Storage_getItem :: "storage_area \<Rightarrow> jsstring \<Rightarrow> jsstring option" where
  "Storage_getItem a k = map_of (items a) k"

definition Storage_size :: "(jsstring \<times> jsstring) list \<Rightarrow> nat" where
  "Storage_size kvs = sum_list (map (\<lambda>(k, v). length k + length v) kvs)"

definition Storage_setItem :: "storage_area \<Rightarrow> jsstring \<Rightarrow> jsstring \<Rightarrow> js_error + storage_area" where
  "Storage_setItem a k v =
     (let kvs = (if k \<in> fst ` set (items a)
                 then map (\<lambda>(k', v'). if k' = k then (k', v) else (k', v')) (items a)
                 else items a @ [(k, v)])
      in if Storage_size kvs > quota a then Inl QuotaExceededError
         else Inr (a\<lparr>items := kvs\<rparr>))"

definition Storage_removeItem :: "storage_area \<Rightarrow> jsstring \<Rightarrow> storage_area" where
  "Storage_removeItem a k = a\<lparr>items := filter (\<lambda>(k', v'). k' \<noteq> k) (items a)\<rparr>"

definition Storage_clear :: "storage_area \<Rightarrow> storage_area" where
  "Storage_clear a = a\<lparr>items := []\<rparr>"

definition Storage_key :: "storage_area \<Rightarrow> nat \<Rightarrow> jsstring option" where
  "Storage_key a n = (if n < length (items a) then Some (fst (items a ! n)) else None)"

text \<open>The \<open>length\<close> attribute is an unsigned long: a storage has fewer than \<open>2^32\<close> entries.\<close>

definition Storage_length :: "storage_area \<Rightarrow> 54 word" where
  "Storage_length a = of_nat (length (items a))"

text \<open>The console keeps the level of each call; the message text is not modelled.\<close>

datatype console_call = ConsoleLog | ConsoleWarn | ConsoleError

record browser =
  localStorage :: storage_area
  sessionStorage :: storage_area
  console :: "console_call list"

definition console_log :: "browser \<Rightarrow> browser" where
  "console_log b = b\<lparr>console := console b @ [ConsoleLog]\<rparr>"

definition console_warn :: "browser \<Rightarrow> browser" where
  "console_warn b = b\<lparr>console := console b @ [ConsoleWarn]\<rparr>"

definition console_error :: "browser \<Rightarrow> browser" where
  "console_error b = b\<lparr>console := console b @ [ConsoleError]\<rparr>"

section \<open>Storage wrapper (the module imported as \<open>./localStorage\<close>)\<close>

definition STORAGE_PREFIX :: jsstring where
  "STORAGE_PREFIX = ascii ''my_app_''"

text \<open>Which of the two storage objects \<open>getStorage\<close> has returned.\<close>

datatype storage_ref = LocalStorage | SessionStorage

definition deref :: "browser \<Rightarrow> storage_ref \<Rightarrow> storage_area" where
  "deref b r = (case r of LocalStorage \<Rightarrow> localStorage b | SessionStorage \<Rightarrow> sessionStorage b)"

definition assign :: "browser \<Rightarrow> storage_ref \<Rightarrow> storage_area \<Rightarrow> browser" where
  "assign b r a =
     (case r of LocalStorage \<Rightarrow> b\<lparr>localStorage := a\<rparr> | SessionStorage \<Rightarrow> b\<lparr>sessionStorage := a\<rparr>)"

text \<open>
  \<^verbatim>\<open>
  function getStorage(type) {
      if (type === 'local') {
          return localStorage;
      } else if (type === 'session') {
          return sessionStorage;
      } else {
          throw new Error(`Invalid storage type provided: ${type}. Use 'local' or 'session'.`);
      }
  }
  \<close>
  The message interpolates \<open>type\<close>; when that conversion raises, its TypeError is what
  \<open>getStorage\<close> raises.
\<close>

definition getStorage :: "jsval \<Rightarrow> js_error + storage_ref" where
  "getStorage type =
     (if type = JString (ascii ''local'') then Inr LocalStorage
      else if type = JString (ascii ''session'') then Inr SessionStorage
      else (case toString type of
              Inl typeError \<Rightarrow> Inl typeError
            | Inr shown \<Rightarrow>
                Inl (Error (ascii ''Invalid storage type provided: '' @ shown
                            @ ascii ''. Use '' @ [0x27] @ ascii ''local'' @ [0x27] @ ascii '' or ''
                            @ [0x27] @ ascii ''session'' @ [0x27] @ ascii ''.''))))"

text \<open>
  Every catch block of the wrapper builds its message with \<open>${type}\<close> before it calls
  the console: when that conversion raises, nothing is logged and the TypeError leaves
  the wrapper function. \<open>console_error_type\<close> and \<open>console_warn_type\<close> are such calls.
  The keys are strings and the index is a natural number, whose conversions succeed.
\<close>

definition console_error_type :: "browser \<Rightarrow> jsval \<Rightarrow> js_error + browser" where
  "console_error_type b type =
     (case toString type of Inl typeError \<Rightarrow> Inl typeError | Inr shown \<Rightarrow> Inr (console_error b))"

definition console_warn_type :: "browser \<Rightarrow> jsval \<Rightarrow> js_error + browser" where
  "console_warn_type b type =
     (case toString type of Inl typeError \<Rightarrow> Inl typeError | Inr shown \<Rightarrow> Inr (console_warn b))"

text \<open>
  The wrapper functions return their result, or the error they let through, and the
  browser state after the call.
  \<^verbatim>\<open>
  function setItem(type, key, value) {
      try {
          const storage = getStorage(type);
          const prefixedKey = STORAGE_PREFIX + key;
          const stringValue = typeof value === 'string' ? value : JSON.stringify(value);
          storage.setItem(prefixedKey, stringValue);
      } catch (error) {
          console.error(`Error setting item '${key}' in ${type}Storage:`, error);
          if (error.name === 'QuotaExceededError') {
              console.warn(`${type}Storage quota exceeded! Could not store item '${key}'.`);
          }
      }
  }
  \<close>
  \<open>storage.setItem\<close> converts its second argument to a string.
\<close>

definition setItem_catch :: "browser \<Rightarrow> jsval \<Rightarrow> js_error \<Rightarrow> (js_error + jsval) \<times> browser" where
  "setItem_catch b type error =
     (case console_error_type b type of
        Inl typeError \<Rightarrow> (Inl typeError, b)
      | Inr b1 \<Rightarrow>
          if error = QuotaExceededError
          then (case console_warn_type b1 type of
                  Inl typeError \<Rightarrow> (Inl typeError, b1)
                | Inr b2 \<Rightarrow> (Inr JUndefined, b2))
          else (Inr JUndefined, b1))"

definition setItem ::
  "(jsval \<Rightarrow> js_error + jsval) \<Rightarrow> browser \<Rightarrow> jsval \<Rightarrow> jsstring \<Rightarrow> jsval \<Rightarrow> (js_error + jsval) \<times> browser" where
  "setItem JSON_stringify b type key value =
     (case getStorage type of
        Inl error \<Rightarrow> setItem_catch b type error
      | Inr storage \<Rightarrow>
          (let prefixedKey = STORAGE_PREFIX @ key
           in case (case value of JString s \<Rightarrow> Inr value | _ \<Rightarrow> JSON_stringify value) of
                Inl error \<Rightarrow> setItem_catch b type error
              | Inr stringValue \<Rightarrow>
                  (case toString stringValue of
                     Inl error \<Rightarrow> setItem_catch b type error
                   | Inr text \<Rightarrow>
                       (case Storage_setItem (deref b storage) prefixedKey text of
                          Inl error \<Rightarrow> setItem_catch b type error
                        | Inr a \<Rightarrow> (Inr JUndefined, assign b storage a)))))"

text \<open>
  \<^verbatim>\<open>
  function getItem(type, key) {
      try {
          const storage = getStorage(type);
          const prefixedKey = STORAGE_PREFIX + key;
          const stringValue = storage.getItem(prefixedKey);
          if (stringValue === null) {
              return null;
          }
          try {
              return JSON.parse(stringValue);
          } catch (parseError) {
              return stringValue;
          }
      } catch (error) {
          console.error(`Error getting item '${key}' from ${type}Storage:`, error);
          return null;
      }
  }
  \<close>
\<close>

definition getItem ::
  "(jsstring \<Rightarrow> js_error + jsval) \<Rightarrow> browser \<Rightarrow> jsval \<Rightarrow> jsstring \<Rightarrow> (js_error + jsval) \<times> browser" where
  "getItem JSON_parse b type key =
     (case getStorage type of
        Inl error \<Rightarrow>
          (case console_error_type b type of
             Inl typeError \<Rightarrow> (Inl typeError, b)
           | Inr b1 \<Rightarrow> (Inr JNull, b1))
      | Inr storage \<Rightarrow>
          (let prefixedKey = STORAGE_PREFIX @ key
           in case Storage_getItem (deref b storage) prefixedKey of
                None \<Rightarrow> (Inr JNull, b)
              | Some stringValue \<Rightarrow>
                  (case JSON_parse stringValue of
                     Inr parsed \<Rightarrow> (Inr parsed, b)
                   | Inl parseError \<Rightarrow> (Inr (JString stringValue), b))))"

text \<open>
  \<^verbatim>\<open>
  function removeItem(type, key) {
      try {
          const storage = getStorage(type);
          const prefixedKey = STORAGE_PREFIX + key;
          storage.removeItem(prefixedKey);
      } catch (error) {
          console.error(`Error removing item '${key}' from ${type}Storage:`, error);
      }
  }
  \<close>
\<close>

definition removeItem :: "browser \<Rightarrow> jsval \<Rightarrow> jsstring \<Rightarrow> (js_error + jsval) \<times> browser" where
  "removeItem b type key =
     (case getStorage type of
        Inl error \<Rightarrow>
          (case console_error_type b type of
             Inl typeError \<Rightarrow> (Inl typeError, b)
           | Inr b1 \<Rightarrow> (Inr JUndefined, b1))
      | Inr storage \<Rightarrow>
          (let prefixedKey = STORAGE_PREFIX @ key
           in (Inr JUndefined, assign b storage (Storage_removeItem (deref b storage) prefixedKey))))"

text \<open>
  \<^verbatim>\<open>
  function clear(type) {
      try {
          const storage = getStorage(type);
          storage.clear();
      } catch (error) {
          console.error(`Error clearing ${type}Storage:`, error);
      }
  }
  \<close>
\<close>

definition clear :: "browser \<Rightarrow> jsval \<Rightarrow> (js_error + jsval) \<times> browser" where
  "clear b type =
     (case getStorage type of
        Inl error \<Rightarrow>
          (case console_error_type b type of
             Inl typeError \<Rightarrow> (Inl typeError, b)
           | Inr b1 \<Rightarrow> (Inr JUndefined, b1))
      | Inr storage \<Rightarrow> (Inr JUndefined, assign b storage (Storage_clear (deref b storage))))"

text \<open>
  \<^verbatim>\<open>
  function key(type, index) {
      try {
          const storage = getStorage(type);
          const prefixedKey = storage.key(index);
          if (prefixedKey && prefixedKey.startsWith(STORAGE_PREFIX)) {
              return prefixedKey.substring(STORAGE_PREFIX.length);
          }
          return prefixedKey;
      } catch (error) {
          console.error(`Error getting key at index ${index} from ${type}Storage:`, error);
          return null;
      }
  }
  \<close>
  The index is a natural number.
\<close>

definition key_storage :: "browser \<Rightarrow> jsval \<Rightarrow> nat \<Rightarrow> (js_error + jsval) \<times> browser" where
  "key_storage b type index =
     (case getStorage type of
        Inl error \<Rightarrow>
          (case console_error_type b type of
             Inl typeError \<Rightarrow> (Inl typeError, b)
           | Inr b1 \<Rightarrow> (Inr JNull, b1))
      | Inr storage \<Rightarrow>
          (case Storage_key (deref b storage) index of
             None \<Rightarrow> (Inr JNull, b)
           | Some prefixedKey \<Rightarrow>
               if prefixedKey \<noteq> [] \<and> take (length STORAGE_PREFIX) prefixedKey = STORAGE_PREFIX
               then (Inr (JString (drop (length STORAGE_PREFIX) prefixedKey)), b)
               else (Inr (JString prefixedKey), b)))"

text \<open>
  \<^verbatim>\<open>
  function length(type) {
      try {
          const storage = getStorage(type);
          return storage.length;
      } catch (error) {
          console.error(`Error getting length of ${type}Storage:`, error);
          return -1;
      }
  }
  \<close>
\<close>

definition length_storage :: "browser \<Rightarrow> jsval \<Rightarrow> (js_error + jsval) \<times> browser" where
  "length_storage b type =
     (case getStorage type of
        Inl error \<Rightarrow>
          (case console_error_type b type of
             Inl typeError \<Rightarrow> (Inl typeError, b)
           | Inr b1 \<Rightarrow> (Inr (JInteger (- 1)), b1))
      | Inr storage \<Rightarrow> (Inr (JInteger (Storage_length (deref b storage))), b))"

section \<open>JSON helpers\<close>

text \<open>
  \<^verbatim>\<open>
  export function isValidJSON(value) {
      try { JSON.parse(value); return true; } catch (e) { return false; }
  }
  export function safeParseJSON(value) {
      try { return JSON.parse(value); } catch (e) { return null; }
  }
  \<close>
\<close>

definition isValidJSON :: "(jsstring \<Rightarrow> js_error + jsval) \<Rightarrow> jsstring \<Rightarrow> bool" where
  "isValidJSON JSON_parse value = (case JSON_parse value of Inr parsed \<Rightarrow> True | Inl e \<Rightarrow> False)"

definition safeParseJSON :: "(jsstring \<Rightarrow> js_error + jsval) \<Rightarrow> jsstring \<Rightarrow> jsval" where
  "safeParseJSON JSON_parse value = (case JSON_parse value of Inr parsed \<Rightarrow> parsed | Inl e \<Rightarrow> JNull)"

section \<open>Request pipeline (\<open>src/helpers/axiosAPIWrapper.js\<close>)\<close>

record api_instance =
  baseURL :: jsstring
  timeout :: nat
  defaults_headers :: "(jsstring \<times> jsstring) list"

text \<open>
  Loading the module: the environment maps variable names to strings, and
  \<open>!API_BASE_URL\<close> holds when the variable is undefined or the empty string.
  \<^verbatim>\<open>
  const API_BASE_URL = process.env.BASE_URL;
  if (!API_BASE_URL) {
      console.error("BASE_URL environment variable is not set!");
      throw new Error("BASE_URL environment variable is not set!")
  }
  const api = axios.create({
      baseURL: API_BASE_URL,
      timeout: 10000,
      headers: { 'Content-Type': 'application/json', 'Accept': 'application/json' },
  });
  \<close>
\<close>

definition load_axiosAPIWrapper :: "(jsstring \<rightharpoonup> jsstring) \<Rightarrow> browser \<Rightarrow> (js_error + api_instance) \<times> browser" where
  "load_axiosAPIWrapper env b =
     (case env (ascii ''BASE_URL'') of
        None \<Rightarrow>
          (Inl (Error (ascii ''BASE_URL environment variable is not set!'')), console_error b)
      | Some API_BASE_URL \<Rightarrow>
          if API_BASE_URL = []
          then (Inl (Error (ascii ''BASE_URL environment variable is not set!'')), console_error b)
          else (Inr \<lparr>baseURL = API_BASE_URL, timeout = 10000,
                     defaults_headers = [(ascii ''Content-Type'', ascii ''application/json''),
                                         (ascii ''Accept'', ascii ''application/json'')]\<rparr>, b))"

text \<open>The request configuration; \<open>http_method\<close> is its \<open>method\<close> property.\<close>

record request_config =
  url :: jsstring
  http_method :: "jsstring option"
  headers :: "jsstring \<rightharpoonup> jsstring"

text \<open>
  The request interceptor's first callback.
  \<^verbatim>\<open>
  (config) => {
      const authToken = storage.getItem('local','auth');
      if (authToken) {
          config.headers.Authorization = `Bearer ${authToken}`;
      }
      console.log('Request Interceptor:', config.method?.toUpperCase(), config.url);
      return config;
  }
  \<close>
  The template literal converts \<open>authToken\<close> to a string; when that raises, the
  callback raises and returns no configuration.
\<close>

definition request_interceptor ::
  "(jsstring \<Rightarrow> js_error + jsval) \<Rightarrow> browser \<Rightarrow> request_config \<Rightarrow> (js_error + request_config) \<times> browser" where
  "request_interceptor JSON_parse b config =
     (case getItem JSON_parse b (JString (ascii ''local'')) (ascii ''auth'') of
        (Inl error, b1) \<Rightarrow> (Inl error, b1)
      | (Inr authToken, b1) \<Rightarrow>
          if truthy authToken
          then (case toString authToken of
                  Inl typeError \<Rightarrow> (Inl typeError, b1)
                | Inr shown \<Rightarrow>
                    (Inr (config\<lparr>headers := (headers config)(ascii ''Authorization'' \<mapsto>
                                                 ascii ''Bearer '' @ shown)\<rparr>),
                     console_log b1))
          else (Inr config, console_log b1))"

subsection \<open>Sample states for the closed statements\<close>

definition fresh_browser :: browser where
  "fresh_browser =
     \<lparr>localStorage = \<lparr>items = [], quota = 5000000\<rparr>,
      sessionStorage = \<lparr>items = [], quota = 5000000\<rparr>,
      console = []\<rparr>"



section \<open>Properties of the censoring helpers\<close>

lemma js_slice_last: "str \<noteq> [] \<Longrightarrow> js_slice str (- 1) = [last str]"
proof -
  assume ne: "str \<noteq> []"
  then have "nat (max (int (length str) + (- 1)) 0) = length str - 1"
    by (cases str) auto
  then have "js_slice str (- 1) = drop (length str - 1) str"
    by (simp add: js_slice_def Let_def)
  also have "\<dots> = drop (length (butlast str)) (butlast str @ [last str])"
    using ne by simp
  also have "\<dots> = [last str]"
    by (simp del: append_butlast_last_id length_butlast)
  finally show ?thesis .
qed

lemma censorWord_long:
  assumes "3 \<le> length s"
  shows "censorWord (JString s) = [s ! 0] @ replicate (length s - 2) MASK @ [last s]"
proof -
  from assms have "s \<noteq> []" by auto
  with assms show ?thesis
    by (simp add: censorWord_def js_slice_last)
qed

lemma length_censorWord: "length (censorWord (JString s)) = length s"
proof (cases "3 \<le> length s")
  case True
  then show ?thesis by (simp add: censorWord_long)
next
  case False
  then have "length s = 0 \<or> length s = 1 \<or> length s = 2" by arith
  then show ?thesis by (auto simp: censorWord_def)
qed

text \<open>
  C1. \<open>censorWord\<close> follows the policy table: the empty string gives the empty string, a
  string of length 1 gives one mask character, a string of length 2 gives its first
  character and one mask, a string of length at least 3 gives its first character,
  \<open>len - 2\<close> masks and its last character. So the output is as long as the input, and for
  length at least 3 the first and last characters are those of the input and every
  character between them is the mask. A value that is not a string gives the empty string.
\<close>

theorem censorWord_policy_table:
  "(length s = 0 \<longrightarrow> censorWord (JString s) = []) \<and>
   (length s = 1 \<longrightarrow> censorWord (JString s) = [MASK]) \<and>
   (length s = 2 \<longrightarrow> censorWord (JString s) = [s ! 0, MASK]) \<and>
   (3 \<le> length s \<longrightarrow>
      censorWord (JString s) = [s ! 0] @ replicate (length s - 2) MASK @ [s ! (length s - 1)]) \<and>
   length (censorWord (JString s)) = length s \<and>
   (3 \<le> length s \<longrightarrow>
      censorWord (JString s) ! 0 = s ! 0 \<and>
      censorWord (JString s) ! (length s - 1) = s ! (length s - 1) \<and>
      (\<forall>i. 0 < i \<and> i < length s - 1 \<longrightarrow> censorWord (JString s) ! i = MASK)) \<and>
   ((\<forall>str. v \<noteq> JString str) \<longrightarrow> censorWord v = [])"
proof -
  have short: "length s = 0 \<longrightarrow> censorWord (JString s) = []"
    "length s = 1 \<longrightarrow> censorWord (JString s) = [MASK]"
    "length s = 2 \<longrightarrow> censorWord (JString s) = [s ! 0, MASK]"
    by (simp_all add: censorWord_def)
  have long: "censorWord (JString s) = [s ! 0] @ replicate (length s - 2) MASK @ [s ! (length s - 1)]"
    if "3 \<le> length s"
  proof -
    from that have "s \<noteq> []" by auto
    then have "last s = s ! (length s - 1)" by (rule last_conv_nth)
    with that show ?thesis by (simp add: censorWord_long)
  qed
  have ends: "censorWord (JString s) ! 0 = s ! 0 \<and>
      censorWord (JString s) ! (length s - 1) = s ! (length s - 1) \<and>
      (\<forall>i. 0 < i \<and> i < length s - 1 \<longrightarrow> censorWord (JString s) ! i = MASK)"
    if "3 \<le> length s"
  proof -
    have eq: "censorWord (JString s) = s ! 0 # (replicate (length s - 2) MASK @ [s ! (length s - 1)])"
      using long [OF that] by simp
    have "(replicate (length s - 2) MASK @ [s ! (length s - 1)]) ! (length s - 2) = s ! (length s - 1)"
      by (simp add: nth_append)
    moreover from that have "length s - 1 = Suc (length s - 2)" by arith
    ultimately have l: "censorWord (JString s) ! (length s - 1) = s ! (length s - 1)"
      by (simp add: eq)
    have "censorWord (JString s) ! i = MASK" if i: "0 < i \<and> i < length s - 1" for i
    proof -
      from i obtain j where j: "i = Suc j" "j < length s - 2"
        by (cases i) auto
      then show ?thesis by (simp add: eq nth_append)
    qed
    with l show ?thesis by (simp add: eq)
  qed
  have other: "(\<forall>str. v \<noteq> JString str) \<longrightarrow> censorWord v = []"
    by (cases v) (simp_all add: censorWord_def)
  from short long ends other length_censorWord [of s] show ?thesis
    by blast
qed

theorem censorWord_policy_table_witness:
  "censorWord (JString (ascii '''')) = ascii '''' \<and>
   censorWord (JString (ascii ''a'')) = ascii ''*'' \<and>
   censorWord (JString (ascii ''ab'')) = ascii ''a*'' \<and>
   censorWord (JString (ascii ''hello'')) = ascii ''h***o'' \<and>
   censorWord JNull = []"
  using censorWord_policy_table [of "ascii ''''" JNull]
    censorWord_policy_table [of "ascii ''a''" JNull]
    censorWord_policy_table [of "ascii ''ab''" JNull]
    censorWord_policy_table [of "ascii ''hello''" JNull]
  by (simp add: ascii_def MASK_def numeral_eq_Suc)

lemma digits_small: "n < 10 \<Longrightarrow> digits n = [0x30 + of_nat n]"
  by (simp add: digits.simps)

lemma digits_large: "\<not> n < 10 \<Longrightarrow> digits n = digits (n div 10) @ [0x30 + of_nat (n mod 10)]"
  by (subst digits.simps) simp

lemma digits_9876543210: "digits 9876543210 = ascii ''9876543210''"
  by (simp add: digits_small digits_large ascii_def)

lemma Number_toString_9876543210: "Number_toString 9876543210 = ascii ''9876543210''"
proof -
  have "sint (9876543210 :: 54 word) = 9876543210"
    by (simp add: signed_take_bit_eq_take_bit_shift take_bit_eq_mod)
  then show ?thesis
    by (simp add: Number_toString_def digits_9876543210)
qed

lemma censorPhone_number_example:
  "censorPhone (JInteger 9876543210) = Inr (ascii ''9********0'')"
proof -
  have "censorPhone (JInteger 9876543210) = censorPhone (JString (ascii ''9876543210''))"
    by (simp add: censorPhone_def Number_toString_9876543210)
  also have "\<dots> = Inr (ascii ''9********0'')"
    by (simp add: censorPhone_def countryCodeMatch_def ascii_def
      PLUS_def MASK_def censorWord_def js_slice_def)
  finally show ?thesis .
qed

text \<open>\<open>String(number)\<close> raises for an object with an own \<open>toString\<close> property.\<close>

lemma censorPhone_raises:
  "censorPhone (JObject [(ascii ''toString'', JInteger 1)]) = Inl TypeError"
  by (simp add: censorPhone_def)

lemma js_split_no_sep: "sep \<notin> set a \<Longrightarrow> js_split sep a = [a]"
  by (induction a) auto

lemma js_split_append: "sep \<notin> set a \<Longrightarrow> js_split sep (a @ sep # b) = a # js_split sep b"
  by (induction a) auto

lemma js_split_not_Nil: "js_split sep b \<noteq> []"
  by (induction b) (auto split: list.splits)

lemma js_join_Cons_Cons: "js_join sep ((c # p) # ps) = c # js_join sep (p # ps)"
  by (cases ps) auto

lemma js_join_split: "js_join [sep] (js_split sep b) = b"
proof (induction b)
  case Nil
  then show ?case by simp
next
  case (Cons c cs)
  obtain p ps where sp: "js_split sep cs = p # ps"
    using js_split_not_Nil [of sep cs] by (cases "js_split sep cs") auto
  with Cons show ?case
    by (auto simp: js_join_Cons_Cons)
qed

lemma js_split_first:
  "js_split sep b = takeWhile (\<lambda>c. c \<noteq> sep) b # drop 1 (js_split sep b)"
  by (induction b) (auto split: list.splits)

lemma js_join_rest:
  "js_join [sep] (drop 1 (js_split sep b)) = tl (dropWhile (\<lambda>c. c \<noteq> sep) b)"
proof (induction b)
  case Nil
  then show ?case by simp
next
  case (Cons c cs)
  show ?case
  proof (cases "c = sep")
    case True
    then show ?thesis by (simp add: js_join_split)
  next
    case False
    obtain p ps where sp: "js_split sep cs = p # ps"
      using js_split_not_Nil [of sep cs] by (cases "js_split sep cs") auto
    with False Cons show ?thesis by simp
  qed
qed

lemma censorEmail_parts:
  assumes "AT \<notin> set local" and "AT \<notin> set domain" and "beyond = [] \<or> (\<exists>t. beyond = AT # t)"
  shows "censorEmail (JString (local @ AT # domain @ beyond)) =
     Inr (JString (censorWord (JString local) @ [AT]
        @ censorWord (JString (takeWhile (\<lambda>c. c \<noteq> DOT) domain))
        @ (if tl (dropWhile (\<lambda>c. c \<noteq> DOT) domain) \<noteq> []
           then [DOT] @ tl (dropWhile (\<lambda>c. c \<noteq> DOT) domain) else [])))"
proof -
  have "js_split AT (domain @ beyond) = domain # drop 1 (js_split AT (domain @ beyond))"
    using assms(2,3) by (auto simp: js_split_no_sep js_split_append)
  then obtain ps where "js_split AT (local @ AT # domain @ beyond) = local # domain # ps"
    using assms(1) by (simp add: js_split_append)
  moreover obtain qs where "js_split DOT domain = takeWhile (\<lambda>c. c \<noteq> DOT) domain # qs"
    and "js_join [DOT] (drop 1 (js_split DOT domain)) = tl (dropWhile (\<lambda>c. c \<noteq> DOT) domain)"
    using js_split_first [of DOT domain] js_join_rest [of DOT domain] by blast
  ultimately show ?thesis
    by (simp add: censorEmail_def)
qed


lemma censorWord_set:
  "set (censorWord (JString x)) \<subseteq> insert MASK (set x)"
proof (cases "3 \<le> length x")
  case True
  then have "x \<noteq> []" by auto
  with True show ?thesis
    by (auto simp: censorWord_def js_slice_last)
next
  case False
  then have "length x = 0 \<or> length x = 1 \<or> length x = 2" by arith
  then show ?thesis by (auto simp: censorWord_def)
qed

lemma AT_notin_censorWord: "AT \<notin> set x \<Longrightarrow> AT \<notin> set (censorWord (JString x))"
  using censorWord_set [of x] by (auto simp: AT_def MASK_def)

lemma censorPhone_plus_digits:
  assumes "ds \<noteq> []" and "\<forall>c\<in>set ds. isDigit c"
  shows "censorPhone (JString (PLUS # ds)) = Inr (PLUS # ds)"
proof -
  from assms(2) have tw: "takeWhile isDigit ds = ds" by simp
  have "countryCodeMatch (PLUS # ds) = Some (PLUS # ds)"
    using assms(1) by (simp add: countryCodeMatch_def tw)
  then show ?thesis
    by (simp add: censorPhone_def js_slice_def censorWord_def)
qed

lemma censorPhone_country_code:
  assumes "ds \<noteq> []" and "\<forall>c\<in>set ds. isDigit c" and "rest = [] \<or> \<not> isDigit (hd rest)"
  shows "censorPhone (JString (PLUS # ds @ rest)) = Inr (PLUS # ds @ censorWord (JString rest))"
proof -
  from assms(2,3) have tw: "takeWhile isDigit (ds @ rest) = ds"
    by (cases rest) (auto simp: takeWhile_append)
  have "countryCodeMatch (PLUS # ds @ rest) = Some (PLUS # ds)"
    using assms(1) by (simp add: countryCodeMatch_def tw)
  moreover have "js_slice (PLUS # ds @ rest) (int (length (PLUS # ds))) = rest"
    by (simp add: js_slice_def nat_add_distrib)
  ultimately show ?thesis
    by (simp add: censorPhone_def del: length_Cons)
qed

text \<open>
  C2. The claim: on a \<open>+\<close> followed by digits, \<open>censorPhone\<close> keeps the country code
  and censors the rest, so that \<open>censorPhone("+1234567890")\<close> is \<open>"+1********0"\<close>, as the
  function's documentation says. The greedy \<open>\d+\<close> takes every digit as country code, so
  nothing is left to censor and the number comes back in full.
\<close>

theorem censorPhone_docstring_example:
  "censorPhone (JString (ascii ''+1234567890'')) = Inr (ascii ''+1234567890'') \<and>
   censorPhone (JString (ascii ''+1234567890'')) \<noteq> Inr (ascii ''+1********0'')"
  by (simp add: censorPhone_def countryCodeMatch_def ascii_def PLUS_def isDigit_def
      js_slice_def censorWord_def)

lemma censorEmail_john_doe: "censorEmail (JString (ascii ''john.doe@example.com'')) =
     Inr (JString (ascii ''j******e@e*****e.com''))"
  by (simp add: censorEmail_def ascii_def AT_def DOT_def MASK_def censorWord_def js_slice_def)

lemma censorEmail_a_b: "censorEmail (JString (ascii ''a@b.com'')) = Inr (JString (ascii ''*@*.com''))"
  by (simp add: censorEmail_def ascii_def AT_def DOT_def MASK_def censorWord_def js_slice_def)

text \<open>
  C3. The claim: \<open>censorEmail\<close> censors the local part and the first label of the domain
  and keeps the rest of the domain, so that \<open>censorEmail("john.doe@example.com")\<close> is
  \<open>"j******e@e******e.com"\<close> and \<open>censorEmail("a@b.com")\<close> is \<open>"a@b.com"\<close>, as the
  function's documentation says. The function returns neither: the label \<open>example\<close>
  comes back with five masks, and a part of one character comes back as a mask.
\<close>

theorem censorEmail_docstring_examples:
  "censorEmail (JString (ascii ''john.doe@example.com'')) =
     Inr (JString (ascii ''j******e@e*****e.com'')) \<and>
   censorEmail (JString (ascii ''john.doe@example.com'')) \<noteq>
     Inr (JString (ascii ''j******e@e******e.com'')) \<and>
   censorEmail (JString (ascii ''a@b.com'')) = Inr (JString (ascii ''*@*.com'')) \<and>
   censorEmail (JString (ascii ''a@b.com'')) \<noteq> Inr (JString (ascii ''a@b.com''))"
  by (simp add: censorEmail_john_doe censorEmail_a_b) (simp add: ascii_def)

lemma censorEmail_no_at: "AT \<notin> set s \<Longrightarrow> censorEmail (JString s) = Inr (JString s)"
  by (simp add: censorEmail_def)

text \<open>
  The mechanism of \<open>censorEmail\<close> on a string with one \<open>@\<close>: the local part and the
  first label of the domain are censored with \<open>censorWord\<close>; text after the first dot is
  kept with its dot, and a first dot that ends the string is dropped. A string without
  \<open>@\<close> is returned as it is.
\<close>

lemma censorEmail_censors_parts:
  "(AT \<notin> set local \<and> AT \<notin> set label \<and> DOT \<notin> set label \<and> AT \<notin> set rest \<and> rest \<noteq> [] \<longrightarrow>
      censorEmail (JString (local @ [AT] @ label @ [DOT] @ rest)) =
        Inr (JString (censorWord (JString local) @ [AT] @ censorWord (JString label) @ [DOT] @ rest))) \<and>
   (AT \<notin> set local \<and> AT \<notin> set label \<and> DOT \<notin> set label \<longrightarrow>
      censorEmail (JString (local @ [AT] @ label)) =
        Inr (JString (censorWord (JString local) @ [AT] @ censorWord (JString label)))) \<and>
   censorEmail (JString (ascii ''john.doe@example.com'')) =
     Inr (JString (ascii ''j******e@e*****e.com'')) \<and>
   censorEmail (JString (ascii ''a@b.com'')) = Inr (JString (ascii ''*@*.com'')) \<and>
   (AT \<notin> set s \<longrightarrow> censorEmail (JString s) = Inr (JString s))"
proof -
  have dotted: "censorEmail (JString (local @ [AT] @ label @ [DOT] @ rest)) =
        Inr (JString (censorWord (JString local) @ [AT] @ censorWord (JString label) @ [DOT] @ rest))"
    if "AT \<notin> set local" "AT \<notin> set label" "DOT \<notin> set label" "AT \<notin> set rest" "rest \<noteq> []"
  proof -
    have "AT \<notin> set (label @ DOT # rest)"
      using that by (auto simp: AT_def DOT_def)
    moreover have tw: "takeWhile (\<lambda>c. c \<noteq> DOT) (label @ DOT # rest) = label"
      using that(3) by (simp add: takeWhile_append)
    moreover have dw: "dropWhile (\<lambda>c. c \<noteq> DOT) (label @ DOT # rest) = DOT # rest"
      using that(3) by (simp add: dropWhile_append)
    ultimately show ?thesis
      using censorEmail_parts [of local "label @ DOT # rest" "[]"] that(1,5) by (simp add: tw dw)
  qed
  have plain: "censorEmail (JString (local @ [AT] @ label)) =
        Inr (JString (censorWord (JString local) @ [AT] @ censorWord (JString label)))"
    if "AT \<notin> set local" "AT \<notin> set label" "DOT \<notin> set label"
  proof -
    have tw: "takeWhile (\<lambda>c. c \<noteq> DOT) label = label"
      and dw: "dropWhile (\<lambda>c. c \<noteq> DOT) label = []"
      using that(3) by auto
    show ?thesis
      using censorEmail_parts [of local label "[]"] that(1,2) by (simp add: tw dw)
  qed
  from dotted plain censorEmail_john_doe censorEmail_a_b censorEmail_no_at [of s] show ?thesis
    by blast
qed

lemma censorEmail_trailing_dot:
  assumes "AT \<notin> set local" and "AT \<notin> set label" and "DOT \<notin> set label"
  shows "censorEmail (JString (local @ [AT] @ label @ [DOT])) =
     Inr (JString (censorWord (JString local) @ [AT] @ censorWord (JString label)))"
proof -
  have "AT \<notin> set (label @ [DOT])"
    using assms(2) by (simp add: AT_def DOT_def)
  moreover have tw: "takeWhile (\<lambda>c. c \<noteq> DOT) (label @ [DOT]) = label"
    using assms(3) by (simp add: takeWhile_append)
  moreover have dw: "dropWhile (\<lambda>c. c \<noteq> DOT) (label @ [DOT]) = [DOT]"
    using assms(3) by (simp add: dropWhile_append)
  ultimately show ?thesis
    using censorEmail_parts [of local "label @ [DOT]" "[]"] assms(1) by (simp add: tw dw)
qed

lemma split_at_first:
  "x \<in> set s \<Longrightarrow> s = takeWhile (\<lambda>c. c \<noteq> x) s @ x # tl (dropWhile (\<lambda>c. c \<noteq> x) s)"
proof -
  assume "x \<in> set s"
  then have "dropWhile (\<lambda>c. c \<noteq> x) s \<noteq> []" by auto
  moreover have "hd (dropWhile (\<lambda>c. c \<noteq> x) s) = x"
    using calculation hd_dropWhile [of "\<lambda>c. c \<noteq> x" s] by auto
  ultimately have "dropWhile (\<lambda>c. c \<noteq> x) s = x # tl (dropWhile (\<lambda>c. c \<noteq> x) s)"
    by (cases "dropWhile (\<lambda>c. c \<noteq> x) s") auto
  then show ?thesis
    by (metis takeWhile_dropWhile_id)
qed

lemma set_tl_subset: "set (tl xs) \<subseteq> set xs"
  by (cases xs) auto

lemma notin_takeWhile_neq: "x \<notin> set (takeWhile (\<lambda>c. c \<noteq> x) s)"
  by (auto dest: set_takeWhileD)

text \<open>The TypeError branch of \<open>censorEmail\<close> is never taken.\<close>

lemma censorEmail_never_raises: "\<exists>v. censorEmail email = Inr v"
proof (cases email)
  case (JString s)
  show ?thesis
  proof (cases "AT \<in> set s")
    case False
    with JString show ?thesis by (simp add: censorEmail_def)
  next
    case True
    define local where "local = takeWhile (\<lambda>c. c \<noteq> AT) s"
    define after where "after = tl (dropWhile (\<lambda>c. c \<noteq> AT) s)"
    define domain where "domain = takeWhile (\<lambda>c. c \<noteq> AT) after"
    define beyond where "beyond = dropWhile (\<lambda>c. c \<noteq> AT) after"
    have nl: "AT \<notin> set local" and nd: "AT \<notin> set domain"
      unfolding local_def domain_def by (rule notin_takeWhile_neq)+
    from True have "s = local @ AT # after"
      unfolding local_def after_def by (rule split_at_first)
    then have s: "s = local @ AT # domain @ beyond"
      by (simp add: domain_def beyond_def)
    have "beyond = [] \<or> (\<exists>t. beyond = AT # t)"
    proof (cases beyond)
      case Nil
      then show ?thesis by simp
    next
      case (Cons a t)
      then have "beyond \<noteq> []" by simp
      then have "\<not> hd beyond \<noteq> AT"
        unfolding beyond_def by (rule hd_dropWhile)
      with Cons show ?thesis by simp
    qed
    from censorEmail_parts [OF nl nd this] JString s show ?thesis
      by blast
  qed
qed (simp_all add: censorEmail_def)

text \<open>
  C9. For every string with two or more \<open>@\<close>, \<open>censorEmail\<close> drops the second \<open>@\<close> and
  everything after it: the result is the censored text before the first \<open>@\<close>, one
  \<open>@\<close>, and the censored label and preserved suffix of the text between the first and
  the second \<open>@\<close>, which is also the result for the input cut before its second
  \<open>@\<close>. The call returns a string (no error), and that string is not the input.
\<close>

theorem censorEmail_second_at_discarded:
  assumes "2 \<le> count_list s AT"
  shows "let local = takeWhile (\<lambda>c. c \<noteq> AT) s;
             after = tl (dropWhile (\<lambda>c. c \<noteq> AT) s);
             domain = takeWhile (\<lambda>c. c \<noteq> AT) after;
             label = takeWhile (\<lambda>c. c \<noteq> DOT) domain;
             suffix = tl (dropWhile (\<lambda>c. c \<noteq> DOT) domain);
             out = censorWord (JString local) @ [AT] @ censorWord (JString label)
                   @ (if suffix \<noteq> [] then [DOT] @ suffix else [])
         in censorEmail (JString s) = Inr (JString out) \<and>
            censorEmail (JString s) = censorEmail (JString (local @ [AT] @ domain)) \<and>
            count_list out AT = 1 \<and> out \<noteq> s"
proof -
  define local where "local = takeWhile (\<lambda>c. c \<noteq> AT) s"
  define after where "after = tl (dropWhile (\<lambda>c. c \<noteq> AT) s)"
  define domain where "domain = takeWhile (\<lambda>c. c \<noteq> AT) after"
  define tail where "tail = tl (dropWhile (\<lambda>c. c \<noteq> AT) after)"
  define label where "label = takeWhile (\<lambda>c. c \<noteq> DOT) domain"
  define suffix where "suffix = tl (dropWhile (\<lambda>c. c \<noteq> DOT) domain)"
  define out where "out = censorWord (JString local) @ [AT] @ censorWord (JString label)
                   @ (if suffix \<noteq> [] then [DOT] @ suffix else [])"
  have nl: "AT \<notin> set local" and nd: "AT \<notin> set domain"
    unfolding local_def domain_def by (rule notin_takeWhile_neq)+
  have "AT \<in> set s"
    using assms count_list_0_iff [of s AT] by (cases "AT \<in> set s") simp_all
  then have s1: "s = local @ AT # after"
    unfolding local_def after_def by (rule split_at_first)
  have "count_list s AT = Suc (count_list after AT)"
    using nl by (subst s1) (simp add: count_list_0_iff)
  with assms have "AT \<in> set after"
    using count_list_0_iff [of after AT] by (cases "AT \<in> set after") simp_all
  then have a1: "after = domain @ AT # tail"
    unfolding domain_def tail_def by (rule split_at_first)
  have s2: "s = local @ AT # domain @ AT # tail"
    using s1 a1 by simp
  have r1: "censorEmail (JString s) = Inr (JString out)"
    using censorEmail_parts [OF nl nd, of "AT # tail"] s2
    by (simp add: out_def label_def suffix_def)
  have r2: "censorEmail (JString (local @ [AT] @ domain)) = Inr (JString out)"
    using censorEmail_parts [OF nl nd, of "[]"]
    by (simp add: out_def label_def suffix_def)
  have "set label \<subseteq> set domain"
    unfolding label_def by (auto dest: set_takeWhileD)
  moreover have "set suffix \<subseteq> set domain"
    unfolding suffix_def using set_tl_subset [of "dropWhile (\<lambda>c. c \<noteq> DOT) domain"]
    by (auto dest: set_dropWhileD)
  ultimately
  have "AT \<notin> set label" "AT \<notin> set suffix" using nd by auto
  with nl have c1: "count_list out AT = 1"
    using AT_notin_censorWord [of local] AT_notin_censorWord [of label]
    by (simp add: out_def count_list_0_iff) (simp add: AT_def DOT_def)
  with assms have "out \<noteq> s" by auto
  with r1 r2 c1 show ?thesis
    unfolding Let_def local_def [symmetric] after_def [symmetric] domain_def [symmetric]
      label_def [symmetric] suffix_def [symmetric] out_def [symmetric]
    by simp
qed

theorem censorEmail_second_at_discarded_witness:
  "2 \<le> count_list (ascii ''ab@cd.ef@gh.com'') AT \<and>
   censorEmail (JString (ascii ''ab@cd.ef@gh.com'')) = Inr (JString (ascii ''a*@c*.ef'')) \<and>
   censorEmail (JString (ascii ''ab@cd.ef@gh.com'')) = censorEmail (JString (ascii ''ab@cd.ef''))"
proof -
  have h: "2 \<le> count_list (ascii ''ab@cd.ef@gh.com'') AT"
    by (simp add: ascii_def AT_def)
  show ?thesis
    using h censorEmail_second_at_discarded [OF h]
    by (simp add: Let_def)
      (simp add: ascii_def AT_def DOT_def MASK_def censorWord_def js_slice_def censorEmail_def)
qed

section \<open>Properties of the string utilities\<close>

lemma slugUnit_not_space: "slugUnit c \<Longrightarrow> \<not> isSpace c"
  unfolding slugUnit_def isLower_def isDigit_def UNDERSCORE_def DASH_def isSpace_def
  by (auto simp: word_le_nat_alt)

lemma DASH_not_upper: "\<not> isUpper DASH"
  by (simp add: isUpper_def DASH_def)

lemma lower_not_upper: "isUpper c \<Longrightarrow> \<not> isUpper (c + 0x20)"
  unfolding isUpper_def by unat_arith


lemma slugUnit_keep: "slugUnit c \<Longrightarrow> isWord c \<or> c = DASH"
  by (auto simp: slugUnit_def isWord_def)

lemma word_not_upper_slugUnit: "isWord c \<or> c = DASH \<Longrightarrow> \<not> isUpper c \<Longrightarrow> slugUnit c"
  by (auto simp: slugUnit_def isWord_def)

lemma set_replace_dashes: "set (replace_dashes s) \<subseteq> set s"
proof (induction s rule: replace_dashes.induct)
  case 1
  then show ?case by simp
next
  case (2 c cs)
  show ?case
  proof (cases "c = DASH \<and> take 1 cs = [DASH]")
    case True
    with 2 have "set (replace_dashes (dropWhile (\<lambda>d. d = DASH) cs)) \<subseteq> set cs"
      by (auto dest: set_dropWhileD)
    with True show ?thesis by auto
  next
    case False
    with 2 show ?thesis by auto
  qed
qed

lemma set_replace_spaces: "set (replace_spaces s) \<subseteq> insert DASH (set s)"
proof (induction s rule: replace_spaces.induct)
  case 1
  then show ?case by simp
next
  case (2 c cs)
  show ?case
  proof (cases "isSpace c")
    case True
    with 2 have "set (replace_spaces (dropWhile isSpace cs)) \<subseteq> insert DASH (set cs)"
      by (auto dest: set_dropWhileD)
    with True show ?thesis by auto
  next
    case False
    with 2 show ?thesis by auto
  qed
qed

lemma set_trim: "set (trim s) \<subseteq> set s"
proof -
  have "set (trim s) \<subseteq> set (rev (dropWhile isSpace s))"
    unfolding trim_def by (auto dest: set_dropWhileD)
  then show ?thesis by (auto dest: set_dropWhileD)
qed

lemma take1_replace_dashes: "take 1 (replace_dashes s) = take 1 s"
  by (cases s) auto

lemma replace_dashes_idem: "replace_dashes (replace_dashes s) = replace_dashes s"
proof (induction s rule: replace_dashes.induct)
  case 1
  then show ?case by simp
next
  case (2 c cs)
  show ?case
  proof (cases "c = DASH \<and> take 1 cs = [DASH]")
    case True
    define r where "r = dropWhile (\<lambda>d. d = DASH) cs"
    have "take 1 r \<noteq> [DASH]"
    proof (cases r)
      case Nil
      then show ?thesis by simp
    next
      case (Cons a as)
      then have "r \<noteq> []" by simp
      then have "hd r \<noteq> DASH"
        unfolding r_def by (rule hd_dropWhile)
      with Cons show ?thesis by simp
    qed
    then have "take 1 (replace_dashes r) \<noteq> [DASH]"
      by (metis take1_replace_dashes)
    moreover have "replace_dashes (replace_dashes r) = replace_dashes r"
      using 2(1) True by (simp add: r_def)
    moreover have "replace_dashes (c # cs) = DASH # replace_dashes r"
      using True by (simp add: r_def)
    ultimately show ?thesis by simp
  next
    case False
    then have e: "replace_dashes (c # cs) = c # replace_dashes cs" by auto
    have "\<not> (c = DASH \<and> take 1 (replace_dashes cs) = [DASH])"
      using False by (metis take1_replace_dashes)
    then have "replace_dashes (c # replace_dashes cs) = c # replace_dashes (replace_dashes cs)"
      by auto
    with 2(2) False e show ?thesis by simp
  qed
qed

lemma trim_id:
  assumes "\<forall>c\<in>set t. \<not> isSpace c"
  shows "trim t = t"
proof -
  have "dropWhile isSpace t = t"
    using assms by (intro dropWhile_id) auto
  moreover have "dropWhile isSpace (rev t) = rev t"
    using assms by (intro dropWhile_id) auto
  ultimately show ?thesis by (simp add: trim_def)
qed

lemma replace_spaces_id: "\<forall>c\<in>set t. \<not> isSpace c \<Longrightarrow> replace_spaces t = t"
  by (induction t) auto

lemma remove_non_word_id: "\<forall>c\<in>set t. isWord c \<or> c = DASH \<Longrightarrow> remove_non_word t = t"
  by (simp add: remove_non_word_def)

lemma slugify_slug_units:
  assumes "\<forall>c\<in>set t. slugUnit c" and "toLowerCase t = t"
  shows "slugify toLowerCase t = replace_dashes t"
proof -
  from assms(1) have ns: "\<forall>c\<in>set t. \<not> isSpace c" and kw: "\<forall>c\<in>set t. isWord c \<or> c = DASH"
    by (auto dest: slugUnit_not_space slugUnit_keep)
  then show ?thesis
    by (simp add: slugify_def assms(2) trim_id replace_spaces_id remove_non_word_id)
qed

lemma slugify_output_units:
  assumes "\<And>s c. c \<in> set (toLowerCase s) \<Longrightarrow> \<not> isUpper c"
  shows "\<forall>c\<in>set (slugify toLowerCase x). slugUnit c"
proof
  fix c assume "c \<in> set (slugify toLowerCase x)"
  then have c1: "c \<in> set (remove_non_word (replace_spaces (trim (toLowerCase x))))"
    unfolding slugify_def using set_replace_dashes by blast
  then have keep: "isWord c \<or> c = DASH" and c2: "c \<in> set (replace_spaces (trim (toLowerCase x)))"
    by (auto simp: remove_non_word_def)
  from c2 have "c = DASH \<or> c \<in> set (toLowerCase x)"
    using set_replace_spaces [of "trim (toLowerCase x)"] set_trim [of "toLowerCase x"] by blast
  then have "\<not> isUpper c"
    using assms DASH_not_upper by auto
  with keep show "slugUnit c" by (rule word_not_upper_slugUnit)
qed

text \<open>
  C7. \<open>slugify\<close> is idempotent: \<open>slugify(slugify(x)) = slugify(x)\<close> for every string
  \<open>x\<close>. What is used of the platform's \<open>toLowerCase\<close>: its result never contains an
  ASCII capital, and it leaves a string of slug units (\<open>a-z\<close>, \<open>0-9\<close>, \<open>_\<close>, \<open>-\<close>)
  as it is.
\<close>

theorem slugify_idempotent:
  assumes "\<And>s c. c \<in> set (toLowerCase s) \<Longrightarrow> \<not> isUpper c"
    and "\<And>s. \<forall>c\<in>set s. slugUnit c \<Longrightarrow> toLowerCase s = s"
  shows "slugify toLowerCase (slugify toLowerCase x) = slugify toLowerCase x"
proof -
  define y where "y = slugify toLowerCase x"
  have units: "\<forall>c\<in>set y. slugUnit c"
    unfolding y_def using assms(1) by (rule slugify_output_units)
  then have "toLowerCase y = y" by (rule assms(2))
  with units have "slugify toLowerCase y = replace_dashes y"
    by (rule slugify_slug_units)
  also have "\<dots> = y"
    unfolding y_def slugify_def by (rule replace_dashes_idem)
  finally show ?thesis by (simp add: y_def)
qed

lemma toLowerCase_ascii_no_upper: "c \<in> set (toLowerCase_ascii s) \<Longrightarrow> \<not> isUpper c"
  by (auto simp: toLowerCase_ascii_def lower_not_upper)

lemma slugUnit_not_upper: "slugUnit c \<Longrightarrow> \<not> isUpper c"
  unfolding slugUnit_def isLower_def isDigit_def UNDERSCORE_def DASH_def isUpper_def
  by (auto simp: word_le_nat_alt)

lemma toLowerCase_ascii_fixed: "\<forall>c\<in>set s. slugUnit c \<Longrightarrow> toLowerCase_ascii s = s"
  unfolding toLowerCase_ascii_def by (induction s) (auto dest: slugUnit_not_upper)

lemma slugify_hello_world:
  "slugify toLowerCase_ascii (ascii ''Hello   World!!'') = ascii ''hello-world''"
  by (simp add: slugify_def toLowerCase_ascii_def trim_def remove_non_word_def ascii_def
      isUpper_def isSpace_def isWord_def isLower_def isDigit_def UNDERSCORE_def DASH_def)

theorem slugify_idempotent_witness:
  "slugify toLowerCase_ascii (slugify toLowerCase_ascii (ascii ''Hello   World!!'')) =
     slugify toLowerCase_ascii (ascii ''Hello   World!!'')"
  using slugify_idempotent [of toLowerCase_ascii "ascii ''Hello   World!!''"]
    toLowerCase_ascii_no_upper toLowerCase_ascii_fixed
  by blast

lemma round_trip_user_id: "snakeToCamel (camelToSnake (ascii ''user_id'')) = ascii ''userId''"
  by (simp add: camelToSnake_def ascii_def isUpper_def isLower_def UNDERSCORE_def)

lemma round_trip_Foo: "snakeToCamel (camelToSnake (ascii ''Foo'')) = ascii ''Foo''"
  by (simp add: camelToSnake_def ascii_def isUpper_def isLower_def UNDERSCORE_def)

lemma back_trip_Foo: "camelToSnake (snakeToCamel (ascii ''Foo'')) = ascii ''_foo''"
  by (simp add: camelToSnake_def ascii_def isUpper_def isLower_def UNDERSCORE_def)

text \<open>
  C8. \<open>camelToSnake\<close> and \<open>snakeToCamel\<close> are not inverses: there is a string \<open>x\<close> with
  \<open>snakeToCamel(camelToSnake(x)) \<noteq> x\<close>, for instance \<open>user_id\<close>, which already has an
  underscore. A leading capital alone survives that round trip (\<open>Foo\<close> above); it breaks
  the other one, \<open>camelToSnake(snakeToCamel("Foo"))\<close> being \<open>_foo\<close>.
\<close>

theorem camelToSnake_snakeToCamel_not_inverse:
  "snakeToCamel (camelToSnake (ascii ''user_id'')) = ascii ''userId'' \<and>
   ascii ''userId'' \<noteq> ascii ''user_id'' \<and>
   (\<exists>x. snakeToCamel (camelToSnake x) \<noteq> x) \<and>
   camelToSnake (snakeToCamel (ascii ''Foo'')) = ascii ''_foo'' \<and>
   (\<exists>x. camelToSnake (snakeToCamel x) \<noteq> x)"
proof -
  have n1: "ascii ''userId'' \<noteq> ascii ''user_id''"
    by (simp add: ascii_def)
  have n2: "ascii ''_foo'' \<noteq> ascii ''Foo''"
    by (simp add: ascii_def)
  have "snakeToCamel (camelToSnake (ascii ''user_id'')) \<noteq> ascii ''user_id''"
    unfolding round_trip_user_id by (rule n1)
  then have e1: "\<exists>x. snakeToCamel (camelToSnake x) \<noteq> x" by blast
  have "camelToSnake (snakeToCamel (ascii ''Foo'')) \<noteq> ascii ''Foo''"
    unfolding back_trip_Foo by (rule n2)
  then have e2: "\<exists>x. camelToSnake (snakeToCamel x) \<noteq> x" by blast
  from round_trip_user_id n1 e1 back_trip_Foo e2 show ?thesis by blast
qed

section \<open>Properties of the storage wrapper, the JSON helpers and the pipeline\<close>

lemma toString_raises_not_string: "toString type = Inl e \<Longrightarrow> type \<noteq> JString s"
  by auto

lemma getStorage_invalid:
  assumes "type \<noteq> JString (ascii ''local'')" and "type \<noteq> JString (ascii ''session'')"
    and "toString type = Inr shown"
  shows "\<exists>message. getStorage type = Inl (Error message)"
  using assms by (simp add: getStorage_def)

lemma getStorage_unprintable:
  assumes "toString type = Inl e"
  shows "getStorage type = Inl e"
  using assms toString_raises_not_string [OF assms] by (simp add: getStorage_def)

text \<open>
  C5, as stated: every wrapper operation called with a storage kind other than
  \<open>'local'\<close> or \<open>'session'\<close> lets the error through to its caller. It does not:
  \<open>getItem\<close> with the kind \<open>'cookie'\<close> returns \<open>null\<close> and \<open>length\<close> returns \<open>-1\<close>, after
  a \<open>console.error\<close>.
\<close>

theorem invalid_storage_type_counterexample:
  "getItem JSON_parse_names fresh_browser (JString (ascii ''cookie'')) (ascii ''auth'') =
     (Inr JNull, console_error fresh_browser) \<and>
   length_storage fresh_browser (JString (ascii ''cookie'')) =
     (Inr (JInteger (- 1)), console_error fresh_browser)"
  by (simp add: getItem_def length_storage_def getStorage_def console_error_type_def ascii_def)

text \<open>
  C5, amended. Only \<open>getStorage\<close> raises on a storage kind other than \<open>'local'\<close> or
  \<open>'session'\<close>. For every such kind that can be converted to a string (the error messages
  interpolate it), each of the six wrapper operations catches that error, reports it
  with \<open>console.error\<close> and returns its neutral default: \<open>getItem\<close> and \<open>key\<close> return
  \<open>null\<close>, \<open>length\<close> returns \<open>-1\<close>, and \<open>setItem\<close>, \<open>removeItem\<close> and \<open>clear\<close>
  return nothing; both storages are left as they were.
\<close>

theorem invalid_storage_type_caught:
  assumes "type \<noteq> JString (ascii ''local'')" and "type \<noteq> JString (ascii ''session'')"
    and "toString type = Inr shown"
  shows "(\<exists>message. getStorage type = Inl (Error message)) \<and>
    setItem JSON_stringify b type key value = (Inr JUndefined, console_error b) \<and>
    getItem JSON_parse b type key = (Inr JNull, console_error b) \<and>
    removeItem b type key = (Inr JUndefined, console_error b) \<and>
    clear b type = (Inr JUndefined, console_error b) \<and>
    key_storage b type index = (Inr JNull, console_error b) \<and>
    length_storage b type = (Inr (JInteger (- 1)), console_error b) \<and>
    localStorage (console_error b) = localStorage b \<and>
    sessionStorage (console_error b) = sessionStorage b \<and>
    console (console_error b) = console b @ [ConsoleError]"
proof -
  from assms obtain message where g: "getStorage type = Inl (Error message)"
    using getStorage_invalid by blast
  have c: "console_error_type b type = Inr (console_error b)"
    using assms(3) by (simp add: console_error_type_def)
  from g c show ?thesis
    by (simp add: setItem_def setItem_catch_def getItem_def removeItem_def clear_def
        key_storage_def length_storage_def console_error_def)
qed

theorem invalid_storage_type_caught_witness:
  "(\<forall>JSON_stringify.
      setItem JSON_stringify fresh_browser JNull (ascii ''k'') (JInteger 1) =
        (Inr JUndefined, console_error fresh_browser)) \<and>
   getItem JSON_parse_names fresh_browser JNull (ascii ''k'') = (Inr JNull, console_error fresh_browser) \<and>
   removeItem fresh_browser JNull (ascii ''k'') = (Inr JUndefined, console_error fresh_browser) \<and>
   clear fresh_browser JNull = (Inr JUndefined, console_error fresh_browser) \<and>
   key_storage fresh_browser JNull 0 = (Inr JNull, console_error fresh_browser) \<and>
   length_storage fresh_browser JNull = (Inr (JInteger (- 1)), console_error fresh_browser)"
proof -
  have h: "JNull \<noteq> JString (ascii ''local'')" "JNull \<noteq> JString (ascii ''session'')"
    "toString JNull = Inr (ascii ''null'')"
    by simp_all
  show ?thesis
    using invalid_storage_type_caught [OF h, of _ fresh_browser "ascii ''k''" "JInteger 1" JSON_parse_names 0]
    by simp
qed

text \<open>
  A storage kind whose conversion to a string raises: the TypeError raised for the
  message of \<open>getStorage\<close> is caught, the catch block raises it again for its own message,
  and it leaves the wrapper; nothing is logged.
\<close>

lemma invalid_storage_type_unprintable:
  assumes "toString type = Inl e"
  shows "setItem JSON_stringify b type key value = (Inl e, b) \<and>
    getItem JSON_parse b type key = (Inl e, b) \<and>
    removeItem b type key = (Inl e, b) \<and>
    clear b type = (Inl e, b) \<and>
    key_storage b type index = (Inl e, b) \<and>
    length_storage b type = (Inl e, b)"
  using assms getStorage_unprintable [OF assms]
  by (simp add: setItem_def setItem_catch_def getItem_def removeItem_def clear_def
      key_storage_def length_storage_def console_error_type_def)

lemma getItem_unprintable_example:
  "getItem JSON_parse_names fresh_browser (JObject [(ascii ''toString'', JInteger 1)]) (ascii ''auth'') =
     (Inl TypeError, fresh_browser)"
proof -
  have "toString (JObject [(ascii ''toString'', JInteger 1)]) = Inl TypeError"
    by simp
  from invalid_storage_type_unprintable [OF this] show ?thesis
    by blast
qed

lemma getItem_local:
  "getItem JSON_parse b (JString (ascii ''local'')) key =
     (case Storage_getItem (localStorage b) (STORAGE_PREFIX @ key) of
        None \<Rightarrow> (Inr JNull, b)
      | Some stringValue \<Rightarrow>
          (case JSON_parse stringValue of
             Inr parsed \<Rightarrow> (Inr parsed, b)
           | Inl parseError \<Rightarrow> (Inr (JString stringValue), b)))"
  by (simp add: getItem_def getStorage_def deref_def)







text \<open>
  A truthy value whose conversion to a string raises: the interceptor raises and returns
  no configuration.
\<close>

lemma request_interceptor_unprintable:
  assumes "Storage_getItem (localStorage b) (STORAGE_PREFIX @ ascii ''auth'') = Some text"
    and "JSON_parse text = Inr v" and "truthy v" and "toString v = Inl e"
  shows "request_interceptor JSON_parse b config = (Inl e, b)"
  using assms by (simp add: request_interceptor_def getItem_local)

text \<open>
  C6. When \<open>BASE_URL\<close> is unset in the environment (or empty), loading the pipeline
  module raises the error \<open>BASE_URL environment variable is not set!\<close> instead of creating
  the client with an empty or default base URL; with a non-empty \<open>BASE_URL\<close> the client
  is created with that base URL.
\<close>

theorem load_axiosAPIWrapper_requires_BASE_URL:
  "(env (ascii ''BASE_URL'') = None \<or> env (ascii ''BASE_URL'') = Some [] \<longrightarrow>
      load_axiosAPIWrapper env b =
        (Inl (Error (ascii ''BASE_URL environment variable is not set!'')), console_error b)) \<and>
   (env (ascii ''BASE_URL'') = Some u \<and> u \<noteq> [] \<longrightarrow>
      (\<exists>api. load_axiosAPIWrapper env b = (Inr api, b) \<and> baseURL api = u))"
proof (intro conjI impI)
  assume "env (ascii ''BASE_URL'') = None \<or> env (ascii ''BASE_URL'') = Some []"
  then show "load_axiosAPIWrapper env b =
        (Inl (Error (ascii ''BASE_URL environment variable is not set!'')), console_error b)"
  proof
    assume "env (ascii ''BASE_URL'') = None"
    then show ?thesis by (simp add: load_axiosAPIWrapper_def)
  next
    assume "env (ascii ''BASE_URL'') = Some []"
    then show ?thesis by (simp add: load_axiosAPIWrapper_def)
  qed
next
  assume "env (ascii ''BASE_URL'') = Some u \<and> u \<noteq> []"
  then have "load_axiosAPIWrapper env b =
      (Inr \<lparr>baseURL = u, timeout = 10000,
            defaults_headers = [(ascii ''Content-Type'', ascii ''application/json''),
                                (ascii ''Accept'', ascii ''application/json'')]\<rparr>, b)"
    by (simp add: load_axiosAPIWrapper_def)
  then show "\<exists>api. load_axiosAPIWrapper env b = (Inr api, b) \<and> baseURL api = u"
    by simp
qed

theorem load_axiosAPIWrapper_requires_BASE_URL_witness:
  "load_axiosAPIWrapper Map.empty fresh_browser =
     (Inl (Error (ascii ''BASE_URL environment variable is not set!'')), console_error fresh_browser) \<and>
   load_axiosAPIWrapper [ascii ''BASE_URL'' \<mapsto> []] fresh_browser =
     (Inl (Error (ascii ''BASE_URL environment variable is not set!'')), console_error fresh_browser) \<and>
   (\<exists>api. load_axiosAPIWrapper [ascii ''BASE_URL'' \<mapsto> ascii ''http://localhost:3001''] fresh_browser =
             (Inr api, fresh_browser) \<and> baseURL api = ascii ''http://localhost:3001'')"
  using load_axiosAPIWrapper_requires_BASE_URL [of Map.empty fresh_browser "ascii ''x''"]
    load_axiosAPIWrapper_requires_BASE_URL [of "[ascii ''BASE_URL'' \<mapsto> []]" fresh_browser "ascii ''x''"]
    load_axiosAPIWrapper_requires_BASE_URL [of "[ascii ''BASE_URL'' \<mapsto> ascii ''http://localhost:3001'']"
      fresh_browser "ascii ''http://localhost:3001''"]
  by (simp add: ascii_def)

text \<open>
  C10. A \<open>null\<close> from \<open>safeParseJSON\<close> does not mean invalid JSON: on the text \<open>null\<close>,
  which \<open>isValidJSON\<close> accepts, \<open>safeParseJSON\<close> returns \<open>null\<close>, the very result it
  returns for a text that does not parse. What is used of the platform's \<open>JSON.parse\<close>:
  it parses the text \<open>null\<close> to \<open>null\<close>, and it rejects the other text.
\<close>

theorem safeParseJSON_null_ambiguous:
  assumes "JSON_parse (ascii ''null'') = Inr JNull" and "JSON_parse value = Inl e"
  shows "isValidJSON JSON_parse (ascii ''null'') \<and> \<not> isValidJSON JSON_parse value \<and>
    safeParseJSON JSON_parse (ascii ''null'') = JNull \<and>
    safeParseJSON JSON_parse value = safeParseJSON JSON_parse (ascii ''null'')"
  using assms by (simp add: isValidJSON_def safeParseJSON_def)

theorem safeParseJSON_null_ambiguous_witness:
  "isValidJSON JSON_parse_names (ascii ''null'') \<and> \<not> isValidJSON JSON_parse_names (ascii ''{'') \<and>
   safeParseJSON JSON_parse_names (ascii ''null'') = JNull \<and>
   safeParseJSON JSON_parse_names (ascii ''{'') = safeParseJSON JSON_parse_names (ascii ''null'')"
proof -
  have h: "JSON_parse_names (ascii ''null'') = Inr JNull" "JSON_parse_names (ascii ''{'') = Inl SyntaxError"
    by (simp_all add: JSON_parse_names_def ascii_def)
  show ?thesis
    using safeParseJSON_null_ambiguous [OF h] .
qed

end
